theory Spec2Isabelle
  imports Complex_Main "HOL-Library.AList"
begin

section \<open>The WebSocket relay of \<^verbatim>\<open>src/server/websocket.ts\<close>\<close>

text \<open>
  The relay is event driven: the transport calls the \<^verbatim>\<open>connection\<close>, \<^verbatim>\<open>message\<close> and
  \<^verbatim>\<open>close\<close> callbacks, and two promises (\<^verbatim>\<open>getChatHistory\<close>, \<^verbatim>\<open>saveChatMessage\<close>) settle later.
  Each callback segment between two suspension points is a function from the relay's
  state to the new state, the list of actions it performed, in order, and the error that
  left the segment uncaught, if any.
\<close>

subsection \<open>Values\<close>

text \<open>A \<^verbatim>\<open>WebSocket\<close> object, by its identity: the n-th socket the transport accepted.\<close>

type_synonym WebSocket = nat

datatype ready_state = CONNECTING | OPEN | CLOSING | CLOSED

text \<open>
  What \<^verbatim>\<open>JSON.parse\<close> returns. An object is the list of its own properties in insertion
  order. Numbers are carried through unread.
\<close>

datatype json =
    JNull
  | JBool bool
  | JNumber real
  | JString string
  | JArray "json list"
  | JObject "(string \<times> json) list"

datatype js_error =
    SyntaxError
  | TypeError
  | NotOpened ready_state
  | StoreFailure string

text \<open>How a promise of the history store settles.\<close>

datatype settled = Resolved json | Rejected js_error

text \<open>
  The built-ins and the \<^verbatim>\<open>ws\<close> library the file calls, as parameters: \<^verbatim>\<open>JSON.parse\<close> on the
  frame's text, and whether \<^verbatim>\<open>send\<close> on a socket that is not open throws (releases of
  \<^verbatim>\<open>ws\<close> differ on this; on an open socket it never does).
\<close>

record lib =
  JSON_parse :: "string \<Rightarrow> js_error + json"
  send_throws :: "ready_state \<Rightarrow> bool"

record ClientSession =
  ws :: WebSocket
  deviceId :: string
  userId :: "string option"

datatype log_line =
    Connected
  | Received json
  | Subscribed "json option"
  | UnknownType "json option"
  | Disconnected

text \<open>
  The actions of a callback, in program order. \<open>Send w v\<close> is the call
  \<^verbatim>\<open>w.send(JSON.stringify(v'))\<close> where \<open>v\<close> is the value the text denotes; the three
  \<open>Sessions\<close> actions are the calls on the \<^verbatim>\<open>activeSessions\<close> map.
\<close>

datatype action =
    Send WebSocket json
  | ConsoleLog log_line
  | ConsoleError js_error
  | GetChatHistory string
  | SaveChatMessage string "json option"
  | SessionsSet string WebSocket
  | SessionsGet string
  | SessionsDelete string

text \<open>
  A suspended continuation with the variables it captured: the \<^verbatim>\<open>then\<close> callback of
  \<^verbatim>\<open>getChatHistory(deviceId)\<close>, and the rest of the message handler after
  \<^verbatim>\<open>await saveChatMessage(deviceId, parsed.content)\<close>.
\<close>

datatype task =
    HistoryRead WebSocket string
  | ChatSave WebSocket string json

record relay =
  activeSessions :: "(string \<times> ClientSession) list"
  clients :: "WebSocket list"
  readyState :: "WebSocket \<Rightarrow> ready_state"
  closures :: "WebSocket \<Rightarrow> string option"
  pending :: "task list"
  opened :: nat

text \<open>
  \<open>activeSessions\<close> is the \<^verbatim>\<open>Map\<close> of the source, in insertion order; \<open>clients\<close> and
  \<open>readyState\<close> are \<^verbatim>\<open>wss.clients\<close> and each socket's state, which the \<^verbatim>\<open>ws\<close> library keeps
  (a socket joins \<open>clients\<close> when it is accepted and leaves when it has closed);
  \<open>closures w\<close> is the \<^verbatim>\<open>deviceId\<close> captured by the handlers installed on socket \<open>w\<close>.
\<close>

definition createWebSocketServer :: relay where
  "createWebSocketServer =
     \<lparr>activeSessions = [], clients = [], readyState = (\<lambda>_. CLOSED),
      closures = (\<lambda>_. None), pending = [], opened = 0\<rparr>"

subsection \<open>Property reads and writes\<close>

text \<open>\<^verbatim>\<open>parsed.name\<close> on a parsed value; \<open>None\<close> is \<^verbatim>\<open>undefined\<close>.\<close>

fun get_field :: "json \<Rightarrow> string \<Rightarrow> json option" where
  "get_field (JObject kvs) k = map_of kvs k"
| "get_field _ k = None"

text \<open>
  \<^verbatim>\<open>parsed.deviceId = deviceId\<close>. On \<^verbatim>\<open>null\<close> the assignment throws a TypeError, and on
  a boolean, number or string too (a module is strict code). On an array it adds a
  property that is no element, so the array as JSON is unchanged.
\<close>

fun set_deviceId :: "json \<Rightarrow> string \<Rightarrow> js_error + json" where
  "set_deviceId (JObject kvs) d = Inr (JObject (AList.update ''deviceId'' (JString d) kvs))"
| "set_deviceId (JArray vs) d = Inr (JArray vs)"
| "set_deviceId _ d = Inl TypeError"

text \<open>
  The own properties \<^verbatim>\<open>{...parsed}\<close> copies. Only an object reaches the spread: the
  branch is guarded by \<^verbatim>\<open>parsed.type === 'chat'\<close>.
\<close>

fun spread :: "json \<Rightarrow> (string \<times> json) list" where
  "spread (JObject kvs) = kvs"
| "spread _ = []"

text \<open>
  What the assignment leaves in \<^verbatim>\<open>parsed\<close> when it is an object, and the echo
  \<^verbatim>\<open>{...parsed, timestamp: new Date().toISOString()}\<close>, where \<open>now\<close> is the text
  \<^verbatim>\<open>toISOString()\<close> returned.
\<close>

definition stamp :: "json \<Rightarrow> string \<Rightarrow> json" where
  "stamp parsed0 d = JObject (AList.update ''deviceId'' (JString d) (spread parsed0))"

definition echo :: "json \<Rightarrow> string \<Rightarrow> json" where
  "echo parsed now = JObject (AList.update ''timestamp'' (JString now) (spread parsed))"

subsection \<open>Sending\<close>

definition ws_send :: "lib \<Rightarrow> ready_state \<Rightarrow> WebSocket \<Rightarrow> json \<Rightarrow> action list \<times> js_error option" where
  "ws_send L rs w v =
     ([Send w v], if rs \<noteq> OPEN \<and> send_throws L rs then Some (NotOpened rs) else None)"

text \<open>\<^verbatim>\<open>try { ... } catch (error) { console.error(...) }\<close> around a segment.\<close>

fun try_catch :: "action list \<times> js_error option \<Rightarrow> action list" where
  "try_catch (acts, None) = acts"
| "try_catch (acts, Some e) = acts @ [ConsoleError e]"

subsection \<open>The callbacks\<close>

text \<open>\<^verbatim>\<open>req.headers['sec-websocket-key'] || uuidv4()\<close>; \<open>uuid\<close> is what \<^verbatim>\<open>uuidv4()\<close> returns.\<close>

definition assign_deviceId :: "string option \<Rightarrow> string \<Rightarrow> string" where
  "assign_deviceId key uuid =
     (case key of None \<Rightarrow> uuid | Some k \<Rightarrow> if k = [] then uuid else k)"

definition welcome_event :: "string \<Rightarrow> json" where
  "welcome_event d =
     JObject [(''type'', JString ''connection''), (''deviceId'', JString d),
              (''message'', JString ''Connected to Ecosense WebSocket Server'')]"

definition on_connection ::
  "lib \<Rightarrow> string option \<Rightarrow> string \<Rightarrow> relay \<Rightarrow> relay \<times> action list \<times> js_error option" where
  "on_connection L key uuid s =
     (let w = opened s;
          d = assign_deviceId key uuid;
          session = \<lparr>ws = w, deviceId = d, userId = None\<rparr>;
          s1 = s\<lparr>opened := Suc w, clients := clients s @ [w],
                 readyState := (readyState s)(w := OPEN),
                 activeSessions := AList.update d session (activeSessions s)\<rparr>;
          pre = [SessionsSet d w, ConsoleLog Connected]
      in case ws_send L (readyState s1 w) w (welcome_event d) of
           (acts, Some e) \<Rightarrow> (s1, pre @ acts, Some e)
         | (acts, None) \<Rightarrow>
             (s1\<lparr>closures := (closures s1)(w := Some d),
                 pending := pending s1 @ [HistoryRead w d]\<rparr>,
              pre @ acts @ [GetChatHistory d], None))"

text \<open>The \<^verbatim>\<open>then\<close> callback of the history read. The promise has no rejection handler.\<close>

definition history_then ::
  "lib \<Rightarrow> relay \<Rightarrow> WebSocket \<Rightarrow> settled \<Rightarrow> action list \<times> js_error option" where
  "history_then L s w outcome =
     (case outcome of
        Rejected e \<Rightarrow> ([], Some e)
      | Resolved history \<Rightarrow>
          ws_send L (readyState s w) w
            (JObject [(''type'', JString ''history''), (''messages'', history)]))"

text \<open>
  The template literal of the log line converts \<^verbatim>\<open>channel\<close> to a string. The conversion
  throws a TypeError on an object with an own \<^verbatim>\<open>toString\<close> property (parsed JSON holds no
  function, and the inherited \<^verbatim>\<open>valueOf\<close> returns the object), and on an array with such
  an element, since an array's string joins its elements' strings.
\<close>

fun toString_throws :: "json \<Rightarrow> bool" where
  "toString_throws (JObject kvs) = (map_of kvs ''toString'' \<noteq> None)"
| "toString_throws (JArray vs) = list_ex toString_throws vs"
| "toString_throws _ = False"

definition handleSubscription ::
  "lib \<Rightarrow> ready_state \<Rightarrow> WebSocket \<Rightarrow> json \<Rightarrow> action list \<times> js_error option" where
  "handleSubscription L rs w message =
     (let channel = get_field message ''channel''
      in if (case channel of None \<Rightarrow> False | Some c \<Rightarrow> toString_throws c)
         then ([], Some TypeError)
         else (let (acts, e) = ws_send L rs w
                 (JObject ((''type'', JString ''subscribed'') #
                    (case channel of None \<Rightarrow> [] | Some c \<Rightarrow> [(''channel'', c)])))
               in (ConsoleLog (Subscribed channel) # acts, e)))"

text \<open>
  The message handler up to its \<^verbatim>\<open>await\<close>. The second component is \<open>Some parsed\<close> when
  the handler is suspended on \<^verbatim>\<open>saveChatMessage\<close>.
\<close>

definition on_message ::
  "lib \<Rightarrow> ready_state \<Rightarrow> WebSocket \<Rightarrow> string \<Rightarrow> string \<Rightarrow> action list \<times> json option" where
  "on_message L rs w d message =
     (case JSON_parse L message of
        Inl e \<Rightarrow> ([ConsoleError e], None)
      | Inr parsed0 \<Rightarrow>
          (case set_deviceId parsed0 d of
             Inl e \<Rightarrow> ([ConsoleError e], None)
           | Inr parsed \<Rightarrow>
               if get_field parsed ''type'' = Some (JString ''chat'') then
                 ([ConsoleLog (Received parsed),
                   SaveChatMessage d (get_field parsed ''content'')], Some parsed)
               else if get_field parsed ''type'' = Some (JString ''subscribe'') then
                 (ConsoleLog (Received parsed) # try_catch (handleSubscription L rs w parsed), None)
               else
                 ([ConsoleLog (Received parsed),
                   ConsoleLog (UnknownType (get_field parsed ''type''))], None)))"

text \<open>The message handler after the \<^verbatim>\<open>await\<close>, in the state the relay has by then.\<close>

definition on_message_resume ::
  "lib \<Rightarrow> relay \<Rightarrow> string \<Rightarrow> json \<Rightarrow> settled \<Rightarrow> string \<Rightarrow> action list" where
  "on_message_resume L s d parsed outcome now =
     (case outcome of
        Rejected e \<Rightarrow> [ConsoleError e]
      | Resolved _ \<Rightarrow>
          SessionsGet d #
          (case map_of (activeSessions s) d of
             None \<Rightarrow> []
           | Some targetSession \<Rightarrow>
               try_catch (ws_send L (readyState s (ws targetSession)) (ws targetSession)
                 (echo parsed now))))"

definition on_close :: "relay \<Rightarrow> string \<Rightarrow> relay \<times> action list" where
  "on_close s d =
     (s\<lparr>activeSessions := AList.delete d (activeSessions s)\<rparr>,
      [ConsoleLog Disconnected, SessionsDelete d])"

text \<open>\<^verbatim>\<open>wss.clients.forEach\<close>, over the clients with their states; a throw ends the loop.\<close>

fun broadcastMessage ::
  "lib \<Rightarrow> (WebSocket \<times> ready_state) list \<Rightarrow> json \<Rightarrow> action list \<times> js_error option" where
  "broadcastMessage L [] message = ([], None)"
| "broadcastMessage L ((client, rs) # rest) message =
     (if rs = OPEN then
        (case ws_send L rs client message of
           (acts, Some e) \<Rightarrow> (acts, Some e)
         | (acts, None) \<Rightarrow>
             (case broadcastMessage L rest message of (acts', e) \<Rightarrow> (acts @ acts', e)))
      else broadcastMessage L rest message)"

subsection \<open>The event loop\<close>

text \<open>
  What the environment does: a client connects (with its \<^verbatim>\<open>sec-websocket-key\<close> header, and
  the identifier \<^verbatim>\<open>uuidv4()\<close> would return), a frame arrives on a socket, the i-th pending
  promise settles (and the clock reads \<open>now\<close>), a socket starts closing, a socket has
  closed, a caller broadcasts.
\<close>

datatype event =
    Connection "string option" string
  | Message WebSocket string
  | Settle nat settled string
  | Closing WebSocket
  | Close WebSocket
  | Broadcast json

fun step :: "lib \<Rightarrow> event \<Rightarrow> relay \<Rightarrow> relay \<times> action list \<times> js_error option" where
  "step L (Connection key uuid) s = on_connection L key uuid s"
| "step L (Message w message) s =
     (case closures s w of
        None \<Rightarrow> (s, [], None)
      | Some d \<Rightarrow>
          if readyState s w = CLOSED then (s, [], None)
          else (case on_message L (readyState s w) w d message of
                  (acts, None) \<Rightarrow> (s, acts, None)
                | (acts, Some parsed) \<Rightarrow>
                    (s\<lparr>pending := pending s @ [ChatSave w d parsed]\<rparr>, acts, None)))"
| "step L (Settle i outcome now) s =
     (if i < length (pending s) then
        (let s' = s\<lparr>pending := take i (pending s) @ drop (Suc i) (pending s)\<rparr>
         in case pending s ! i of
              HistoryRead w d \<Rightarrow>
                (case history_then L s w outcome of (acts, e) \<Rightarrow> (s', acts, e))
            | ChatSave w d parsed \<Rightarrow> (s', on_message_resume L s d parsed outcome now, None))
      else (s, [], None))"
| "step L (Closing w) s =
     (if readyState s w = OPEN then (s\<lparr>readyState := (readyState s)(w := CLOSING)\<rparr>, [], None)
      else (s, [], None))"
| "step L (Close w) s =
     (case closures s w of
        None \<Rightarrow> (s, [], None)
      | Some d \<Rightarrow>
          if readyState s w = CLOSED then (s, [], None)
          else (case on_close (s\<lparr>readyState := (readyState s)(w := CLOSED),
                                   clients := removeAll w (clients s)\<rparr>) d of
                  (s', acts) \<Rightarrow> (s', acts, None)))"
| "step L (Broadcast message) s =
     (case broadcastMessage L (map (\<lambda>w. (w, readyState s w)) (clients s)) message of
        (acts, e) \<Rightarrow> (s, acts, e))"

text \<open>
  The state after a list of events, and the actions and the uncaught error of a step. What
  the runtime does with an uncaught error is outside the file; \<open>exec\<close> goes on after it,
  so the states it reaches include every state the running relay can reach.
\<close>

fun exec :: "lib \<Rightarrow> relay \<Rightarrow> event list \<Rightarrow> relay" where
  "exec L s [] = s"
| "exec L s (e # es) = exec L (fst (step L e s)) es"

definition actions :: "relay \<times> action list \<times> js_error option \<Rightarrow> action list" where
  "actions r = fst (snd r)"

definition escaped :: "relay \<times> action list \<times> js_error option \<Rightarrow> js_error option" where
  "escaped r = snd (snd r)"

text \<open>The sockets a list of actions sends to, in order.\<close>

fun recipients :: "action list \<Rightarrow> WebSocket list" where
  "recipients [] = []"
| "recipients (Send w v # acts) = w # recipients acts"
| "recipients (_ # acts) = recipients acts"

subsection \<open>Well-formed relay states\<close>

text \<open>
  The socket and the \<^verbatim>\<open>deviceId\<close> a suspended continuation captured, and what holds of
  every state the event loop reaches: the map's keys are distinct, every session is filed
  under its own \<^verbatim>\<open>deviceId\<close>, which is the one its socket's handlers captured, and so is
  every pending continuation's.
\<close>

fun task_socket :: "task \<Rightarrow> WebSocket" where
  "task_socket (HistoryRead w d) = w"
| "task_socket (ChatSave w d parsed) = w"

fun task_deviceId :: "task \<Rightarrow> string" where
  "task_deviceId (HistoryRead w d) = d"
| "task_deviceId (ChatSave w d parsed) = d"

definition wf_relay :: "relay \<Rightarrow> bool" where
  "wf_relay s \<longleftrightarrow>
     distinct (map fst (activeSessions s)) \<and>
     (\<forall>d session. (d, session) \<in> set (activeSessions s) \<longrightarrow>
        deviceId session = d \<and> closures s (ws session) = Some d) \<and>
     (\<forall>t \<in> set (pending s). closures s (task_socket t) = Some (task_deviceId t)) \<and>
     (\<forall>w d. closures s w = Some d \<longrightarrow> w < opened s)"

text \<open>
  The identity an action names, if it names one, and the socket whose handler or
  continuation an event runs.
\<close>

fun action_key :: "action \<Rightarrow> string option" where
  "action_key (GetChatHistory k) = Some k"
| "action_key (SaveChatMessage k c) = Some k"
| "action_key (SessionsSet k w) = Some k"
| "action_key (SessionsGet k) = Some k"
| "action_key (SessionsDelete k) = Some k"
| "action_key (Send w v) = None"
| "action_key (ConsoleLog l) = None"
| "action_key (ConsoleError e) = None"

fun event_socket :: "relay \<Rightarrow> event \<Rightarrow> WebSocket option" where
  "event_socket s (Connection key uuid) = Some (opened s)"
| "event_socket s (Message w message) = Some w"
| "event_socket s (Settle i outcome now) =
     (if i < length (pending s) then Some (task_socket (pending s ! i)) else None)"
| "event_socket s (Closing w) = Some w"
| "event_socket s (Close w) = Some w"
| "event_socket s (Broadcast message) = None"

subsection \<open>A concrete library for the examples\<close>

text \<open>
  \<^verbatim>\<open>JSON.parse\<close> on the four frames the examples send: three well-formed events and one
  text that is no JSON (in the examples every other text is left unparsed).
\<close>

definition chat_frame :: string where
  "chat_frame = ''{\"type\":\"chat\",\"deviceId\":\"spoof\",\"content\":\"hi\"}''"

definition bare_chat_frame :: string where
  "bare_chat_frame = ''{\"type\":\"chat\"}''"

definition ping_frame :: string where
  "ping_frame = ''{\"type\":\"ping\"}''"

definition broken_frame :: string where
  "broken_frame = ''{\"type\":''"

definition demo_parse :: "string \<Rightarrow> js_error + json" where
  "demo_parse text =
     (if text = chat_frame then
        Inr (JObject [(''type'', JString ''chat''), (''deviceId'', JString ''spoof''),
                      (''content'', JString ''hi'')])
      else if text = bare_chat_frame then Inr (JObject [(''type'', JString ''chat'')])
      else if text = ping_frame then Inr (JObject [(''type'', JString ''ping'')])
      else Inl SyntaxError)"

definition demo_lib :: lib where
  "demo_lib = \<lparr>JSON_parse = demo_parse, send_throws = (\<lambda>rs. rs = CLOSED)\<rparr>"

section \<open>Properties\<close>

subsection \<open>Auxiliary facts\<close>

lemma set_update_cases:
  "(k, v) \<in> set (AList.update k' v' al) \<Longrightarrow> (k, v) = (k', v') \<or> (k, v) \<in> set al"
  by (induction al) (auto split: if_splits)

lemma set_delete_subset: "set (AList.delete k al) \<subseteq> set al"
  by (auto simp: AList.delete_eq)

lemma set_remove_nth_subset: "set (take i xs @ drop (Suc i) xs) \<subseteq> set xs"
  by (auto dest: in_set_takeD in_set_dropD)

lemma ws_send_open [simp]: "ws_send L OPEN w v = ([Send w v], None)"
  by (simp add: ws_send_def)

lemma wf_init: "wf_relay createWebSocketServer"
  by (simp add: wf_relay_def createWebSocketServer_def)

lemma wf_on_connection:
  assumes "wf_relay s"
  shows "wf_relay (fst (on_connection L key uuid s))"
proof -
  let ?w = "opened s"
  have old: "\<And>w d. closures s w = Some d \<Longrightarrow> w \<noteq> ?w"
    using assms by (fastforce simp: wf_relay_def)
  have sess: "\<And>d session. (d, session) \<in> set (activeSessions s) \<Longrightarrow>
      deviceId session = d \<and> closures s (ws session) = Some d \<and> ws session \<noteq> ?w"
    using assms old by (simp add: wf_relay_def)
  have pend: "\<And>t. t \<in> set (pending s) \<Longrightarrow>
      closures s (task_socket t) = Some (task_deviceId t) \<and> task_socket t \<noteq> ?w"
    using assms old by (simp add: wf_relay_def)
  have lt: "\<And>w d. closures s w = Some d \<Longrightarrow> w < Suc ?w"
    using assms by (fastforce simp: wf_relay_def)
  have dist: "distinct (map fst (AList.update (assign_deviceId key uuid)
      \<lparr>ws = ?w, deviceId = assign_deviceId key uuid, userId = None\<rparr> (activeSessions s)))"
    using assms by (simp add: wf_relay_def AList.distinct_update)
  show ?thesis
    unfolding wf_relay_def
    using dist sess pend lt
    by (auto simp: on_connection_def Let_def dest!: set_update_cases)
qed

lemma wf_pending_append:
  assumes "wf_relay s" and "closures s (task_socket t) = Some (task_deviceId t)"
  shows "wf_relay (s\<lparr>pending := pending s @ [t]\<rparr>)"
  using assms by (simp add: wf_relay_def)

lemma wf_pending_remove:
  assumes "wf_relay s"
  shows "wf_relay (s\<lparr>pending := take i (pending s) @ drop (Suc i) (pending s)\<rparr>)"
proof -
  have "\<And>t. t \<in> set (take i (pending s) @ drop (Suc i) (pending s)) \<Longrightarrow> t \<in> set (pending s)"
    using set_remove_nth_subset[of i "pending s"] by blast
  then show ?thesis using assms by (simp add: wf_relay_def)
qed

lemma wf_readyState:
  assumes "wf_relay s"
  shows "wf_relay (s\<lparr>readyState := f, clients := c\<rparr>)"
  using assms by (simp add: wf_relay_def)

lemma wf_sessions_delete:
  assumes "wf_relay s"
  shows "wf_relay (s\<lparr>activeSessions := AList.delete d (activeSessions s)\<rparr>)"
proof -
  have "\<And>x. x \<in> set (AList.delete d (activeSessions s)) \<Longrightarrow> x \<in> set (activeSessions s)"
    using set_delete_subset by fastforce
  then show ?thesis using assms by (simp add: wf_relay_def AList.distinct_delete)
qed

lemma step_Message_state:
  "fst (step L (Message w message) s) = s \<or>
   (\<exists>d parsed. closures s w = Some d \<and>
      fst (step L (Message w message) s) = s\<lparr>pending := pending s @ [ChatSave w d parsed]\<rparr>)"
  by (auto split: option.splits prod.splits)

lemma step_Settle_state:
  "fst (step L (Settle i outcome now) s) = s \<or>
   fst (step L (Settle i outcome now) s) =
     s\<lparr>pending := take i (pending s) @ drop (Suc i) (pending s)\<rparr>"
  by (simp add: Let_def split: task.splits prod.splits)

lemma step_Close_state:
  "fst (step L (Close w) s) = s \<or>
   (\<exists>d. closures s w = Some d \<and> readyState s w \<noteq> CLOSED \<and>
      fst (step L (Close w) s) =
        s\<lparr>readyState := (readyState s)(w := CLOSED), clients := removeAll w (clients s),
           activeSessions := AList.delete d (activeSessions s)\<rparr>)"
  by (simp add: on_close_def split: option.splits)

lemma wf_step:
  assumes "wf_relay s"
  shows "wf_relay (fst (step L e s))"
proof (cases e)
  case (Connection key uuid)
  then show ?thesis using assms by (simp add: wf_on_connection)
next
  case (Message w message)
  from step_Message_state[of L w message s] show ?thesis
  proof
    assume "fst (step L (Message w message) s) = s"
    then show ?thesis using assms Message by simp
  next
    assume "\<exists>d parsed. closures s w = Some d \<and>
      fst (step L (Message w message) s) = s\<lparr>pending := pending s @ [ChatSave w d parsed]\<rparr>"
    then obtain d parsed where c: "closures s w = Some d"
      and st: "fst (step L (Message w message) s) = s\<lparr>pending := pending s @ [ChatSave w d parsed]\<rparr>"
      by blast
    have "wf_relay (s\<lparr>pending := pending s @ [ChatSave w d parsed]\<rparr>)"
      using assms c by (intro wf_pending_append) simp_all
    then show ?thesis using st Message by simp
  qed
next
  case (Settle i outcome now)
  from step_Settle_state[of L i outcome now s] show ?thesis
    using assms Settle wf_pending_remove[OF assms, of i] by auto
next
  case (Closing w)
  then show ?thesis using assms
    by (simp add: wf_relay_def)
next
  case (Close w)
  from step_Close_state[of L w s] show ?thesis
  proof
    assume "fst (step L (Close w) s) = s"
    then show ?thesis using assms Close by simp
  next
    assume "\<exists>d. closures s w = Some d \<and> readyState s w \<noteq> CLOSED \<and>
      fst (step L (Close w) s) =
        s\<lparr>readyState := (readyState s)(w := CLOSED), clients := removeAll w (clients s),
           activeSessions := AList.delete d (activeSessions s)\<rparr>"
    then obtain d where st: "fst (step L (Close w) s) =
        s\<lparr>readyState := (readyState s)(w := CLOSED), clients := removeAll w (clients s),
           activeSessions := AList.delete d (activeSessions s)\<rparr>"
      by blast
    have "wf_relay (s\<lparr>readyState := (readyState s)(w := CLOSED), clients := removeAll w (clients s)\<rparr>)"
      using assms by (rule wf_readyState)
    from wf_sessions_delete[OF this, of d] show ?thesis using st Close by simp
  qed
next
  case (Broadcast message)
  then show ?thesis using assms by (simp split: prod.splits)
qed

lemma wf_exec: "wf_relay s \<Longrightarrow> wf_relay (exec L s es)"
  by (induction es arbitrary: s) (simp_all add: wf_step)

lemma length_delete_distinct:
  "distinct (map fst al) \<Longrightarrow> length al \<le> Suc (length (AList.delete k al))"
proof (induction al)
  case Nil
  then show ?case by simp
next
  case (Cons p ps)
  show ?case
  proof (cases "fst p = k")
    case True
    with Cons.prems have "k \<notin> fst ` set ps" by auto
    then have "AList.delete k ps = ps" by simp
    with True show ?thesis by simp
  next
    case False
    with Cons show ?thesis by simp
  qed
qed

lemma delete_absent: "map_of al k = None \<Longrightarrow> AList.delete k al = al"
  by (simp add: map_of_eq_None_iff)

lemma on_connection_sessions:
  "activeSessions (fst (on_connection L key uuid s)) =
     AList.update (assign_deviceId key uuid)
       \<lparr>ws = opened s, deviceId = assign_deviceId key uuid, userId = None\<rparr> (activeSessions s)"
  by (simp add: on_connection_def Let_def)

lemma on_connection_sockets:
  "readyState (fst (on_connection L key uuid s)) = (readyState s)(opened s := OPEN) \<and>
   clients (fst (on_connection L key uuid s)) = clients s @ [opened s]"
  by (simp add: on_connection_def Let_def)

subsection \<open>The session registry\<close>

text \<open>
  C6. In every state the relay reaches, the registry holds at most one connection handle
  per identity. Registering an identity that is present overwrites its entry with the new
  socket and leaves every other entry, every other socket's state and the client set's
  earlier members as they were (the earlier socket is neither closed nor evicted). The
  close handler deletes the entry of its identity, at most one entry, leaves every other
  entry, and changes nothing when the identity is absent.
\<close>

theorem registry_one_handle_per_identity:
  assumes "s = exec L createWebSocketServer es"
  shows "distinct (map fst (activeSessions s)) \<and>
    (let s' = fst (step L (Connection key uuid) s); d = assign_deviceId key uuid
     in map_of (activeSessions s') d = Some \<lparr>ws = opened s, deviceId = d, userId = None\<rparr> \<and>
        distinct (map fst (activeSessions s')) \<and>
        (\<forall>k. k \<noteq> d \<longrightarrow> map_of (activeSessions s') k = map_of (activeSessions s) k) \<and>
        (\<forall>w. w \<noteq> opened s \<longrightarrow> readyState s' w = readyState s w) \<and>
        clients s' = clients s @ [opened s]) \<and>
    (\<forall>w d. closures s w = Some d \<and> readyState s w \<noteq> CLOSED \<longrightarrow>
       (let s' = fst (step L (Close w) s)
        in map_of (activeSessions s') d = None \<and>
           (\<forall>k. k \<noteq> d \<longrightarrow> map_of (activeSessions s') k = map_of (activeSessions s) k) \<and>
           length (activeSessions s) \<le> Suc (length (activeSessions s')) \<and>
           (map_of (activeSessions s) d = None \<longrightarrow> activeSessions s' = activeSessions s)))"
proof -
  have wf: "wf_relay s"
    using assms wf_init by (simp add: wf_exec)
  then have dist: "distinct (map fst (activeSessions s))"
    by (simp add: wf_relay_def)
  have reg: "let s' = fst (step L (Connection key uuid) s); d = assign_deviceId key uuid
     in map_of (activeSessions s') d = Some \<lparr>ws = opened s, deviceId = d, userId = None\<rparr> \<and>
        distinct (map fst (activeSessions s')) \<and>
        (\<forall>k. k \<noteq> d \<longrightarrow> map_of (activeSessions s') k = map_of (activeSessions s) k) \<and>
        (\<forall>w. w \<noteq> opened s \<longrightarrow> readyState s' w = readyState s w) \<and>
        clients s' = clients s @ [opened s]"
    using dist
    by (simp add: Let_def on_connection_sessions on_connection_sockets
        AList.update_conv' AList.distinct_update)
  have rem: "\<forall>w d. closures s w = Some d \<and> readyState s w \<noteq> CLOSED \<longrightarrow>
       (let s' = fst (step L (Close w) s)
        in map_of (activeSessions s') d = None \<and>
           (\<forall>k. k \<noteq> d \<longrightarrow> map_of (activeSessions s') k = map_of (activeSessions s) k) \<and>
           length (activeSessions s) \<le> Suc (length (activeSessions s')) \<and>
           (map_of (activeSessions s) d = None \<longrightarrow> activeSessions s' = activeSessions s))"
    using dist
    by (simp add: Let_def on_close_def AList.delete_conv' length_delete_distinct delete_absent)
  from dist reg rem show ?thesis by blast
qed

theorem registry_one_handle_per_identity_witness:
  "map_of (activeSessions (fst (step demo_lib (Connection (Some ''k'') ''u2'')
      (exec demo_lib createWebSocketServer [Connection (Some ''k'') ''u1''])))) ''k'' =
     Some \<lparr>ws = 1, deviceId = ''k'', userId = None\<rparr> \<and>
   readyState (fst (step demo_lib (Connection (Some ''k'') ''u2'')
      (exec demo_lib createWebSocketServer [Connection (Some ''k'') ''u1'']))) 0 = OPEN \<and>
   length (activeSessions (fst (step demo_lib (Connection (Some ''k'') ''u2'')
      (exec demo_lib createWebSocketServer [Connection (Some ''k'') ''u1''])))) = 1 \<and>
   map_of (activeSessions (fst (step demo_lib (Close 0)
      (exec demo_lib createWebSocketServer
         [Connection (Some ''k'') ''u1'', Connection None ''u2''])))) ''k'' = None"
  using registry_one_handle_per_identity
      [of "exec demo_lib createWebSocketServer [Connection (Some ''k'') ''u1'']" demo_lib
        "[Connection (Some ''k'') ''u1'']" "Some ''k''" "''u2''"]
    registry_one_handle_per_identity
      [of "exec demo_lib createWebSocketServer
         [Connection (Some ''k'') ''u1'', Connection None ''u2'']" demo_lib
        "[Connection (Some ''k'') ''u1'', Connection None ''u2'']"]
  by (simp add: createWebSocketServer_def on_connection_def assign_deviceId_def Let_def on_close_def)

subsection \<open>Inbound dispatch\<close>

lemma get_field_set_deviceId:
  "set_deviceId parsed0 d = Inr parsed \<Longrightarrow> k \<noteq> ''deviceId'' \<Longrightarrow>
   get_field parsed k = get_field parsed0 k"
  by (cases parsed0) (auto simp: AList.update_conv')

lemmas relay_defs =
  createWebSocketServer_def on_connection_def assign_deviceId_def welcome_event_def
  ws_send_def on_message_def on_message_resume_def on_close_def history_then_def
  handleSubscription_def actions_def escaped_def Let_def

lemmas demo_defs =
  demo_lib_def demo_parse_def chat_frame_def bare_chat_frame_def ping_frame_def
  broken_frame_def

text \<open>
  C4. A frame whose text \<^verbatim>\<open>JSON.parse\<close> rejects is logged and dropped: the handler's only
  action is the \<^verbatim>\<open>console.error\<close>, so nothing is sent and nothing is appended to the
  history; the relay's state (registry, sockets, pending work) is unchanged, so the
  connection stays open; no error leaves the handler; and every later event is handled
  as if the frame had never arrived.
\<close>

theorem malformed_frame_dropped:
  assumes "JSON_parse L message = Inl e"
    and "closures s w = Some d"
    and "readyState s w \<noteq> CLOSED"
  shows "step L (Message w message) s = (s, [ConsoleError e], None) \<and>
    step L later (fst (step L (Message w message) s)) = step L later s"
  using assms by (simp add: on_message_def)

theorem malformed_frame_dropped_witness:
  "step demo_lib (Message 0 broken_frame) (exec demo_lib createWebSocketServer [Connection None ''u1'']) =
     (exec demo_lib createWebSocketServer [Connection None ''u1''], [ConsoleError SyntaxError], None) \<and>
   actions (step demo_lib (Message 0 ping_frame)
     (fst (step demo_lib (Message 0 broken_frame)
        (exec demo_lib createWebSocketServer [Connection None ''u1''])))) =
     [ConsoleLog (Received (JObject [(''type'', JString ''ping''), (''deviceId'', JString ''u1'')])),
      ConsoleLog (UnknownType (Some (JString ''ping'')))]"
  using malformed_frame_dropped
      [of demo_lib broken_frame SyntaxError
        "exec demo_lib createWebSocketServer [Connection None ''u1'']" 0 "''u1''"
        "Message 0 ping_frame"]
  by (simp add: relay_defs demo_defs)

text \<open>
  C8. An inbound event whose \<^verbatim>\<open>type\<close> is absent, or is anything but \<^verbatim>\<open>"chat"\<close> and
  \<^verbatim>\<open>"subscribe"\<close>, is only logged: the handler's actions are console lines (the received
  event and the unknown type, or the caught TypeError when the payload is no object or
  array), it sends nothing, appends nothing to the history, leaves the relay's state
  (the registry included) unchanged, and no error leaves it.
\<close>

theorem unknown_type_only_logged:
  assumes "JSON_parse L message = Inr parsed0"
    and "get_field parsed0 ''type'' \<noteq> Some (JString ''chat'')"
    and "get_field parsed0 ''type'' \<noteq> Some (JString ''subscribe'')"
    and "closures s w = Some d"
    and "readyState s w \<noteq> CLOSED"
  shows "fst (step L (Message w message) s) = s \<and>
    escaped (step L (Message w message) s) = None \<and>
    actions (step L (Message w message) s) =
      (case set_deviceId parsed0 d of
         Inl e \<Rightarrow> [ConsoleError e]
       | Inr parsed \<Rightarrow>
           [ConsoleLog (Received parsed), ConsoleLog (UnknownType (get_field parsed0 ''type''))]) \<and>
    recipients (actions (step L (Message w message) s)) = [] \<and>
    (\<forall>k c. SaveChatMessage k c \<notin> set (actions (step L (Message w message) s))) \<and>
    activeSessions (fst (step L (Message w message) s)) = activeSessions s"
proof (cases "set_deviceId parsed0 d")
  case (Inl e)
  with assms show ?thesis
    by (simp add: on_message_def actions_def escaped_def)
next
  case (Inr parsed)
  then have "get_field parsed ''type'' = get_field parsed0 ''type''"
    by (rule get_field_set_deviceId) simp
  with assms Inr show ?thesis
    by (simp add: on_message_def actions_def escaped_def)
qed

theorem unknown_type_only_logged_witness:
  "fst (step demo_lib (Message 0 ping_frame)
      (exec demo_lib createWebSocketServer [Connection None ''u1''])) =
     exec demo_lib createWebSocketServer [Connection None ''u1''] \<and>
   actions (step demo_lib (Message 0 ping_frame)
      (exec demo_lib createWebSocketServer [Connection None ''u1''])) =
     [ConsoleLog (Received (JObject [(''type'', JString ''ping''), (''deviceId'', JString ''u1'')])),
      ConsoleLog (UnknownType (Some (JString ''ping'')))]"
  using unknown_type_only_logged
      [of demo_lib ping_frame "JObject [(''type'', JString ''ping'')]"
        "exec demo_lib createWebSocketServer [Connection None ''u1'']" 0 "''u1''"]
  by (simp add: relay_defs demo_defs)

subsection \<open>Chat events\<close>

lemma chat_is_object:
  assumes "get_field parsed0 ''type'' = Some v"
  shows "parsed0 = JObject (spread parsed0)"
  using assms by (cases parsed0) simp_all

lemma step_chat_begin:
  assumes "JSON_parse L message = Inr parsed0"
    and "get_field parsed0 ''type'' = Some (JString ''chat'')"
    and "closures s w = Some d"
    and "readyState s w \<noteq> CLOSED"
  shows "step L (Message w message) s =
    (s\<lparr>pending := pending s @ [ChatSave w d (stamp parsed0 d)]\<rparr>,
     [ConsoleLog (Received (stamp parsed0 d)),
      SaveChatMessage d (get_field parsed0 ''content'')], None)"
proof -
  from assms(2) have obj: "parsed0 = JObject (spread parsed0)"
    by (rule chat_is_object)
  then have st: "set_deviceId parsed0 d = Inr (stamp parsed0 d)"
    by (metis set_deviceId.simps(1) stamp_def)
  then have "get_field (stamp parsed0 d) ''type'' = get_field parsed0 ''type''"
    and "get_field (stamp parsed0 d) ''content'' = get_field parsed0 ''content''"
    by (simp_all add: get_field_set_deviceId)
  with assms st show ?thesis
    by (simp add: on_message_def)
qed

lemma step_chat_resume:
  assumes "i < length (pending s)"
    and "pending s ! i = ChatSave w d parsed"
  shows "step L (Settle i outcome now) s =
    (s\<lparr>pending := take i (pending s) @ drop (Suc i) (pending s)\<rparr>,
     on_message_resume L s d parsed outcome now, None)"
  using assms by (simp add: Let_def)

lemma resume_resolved:
  "on_message_resume L s d parsed (Resolved v) now =
     SessionsGet d #
     (case map_of (activeSessions s) d of
        None \<Rightarrow> []
      | Some targetSession \<Rightarrow>
          Send (ws targetSession) (echo parsed now) #
          (if readyState s (ws targetSession) \<noteq> OPEN \<and>
              send_throws L (readyState s (ws targetSession))
           then [ConsoleError (NotOpened (readyState s (ws targetSession)))] else []))"
  by (simp add: on_message_resume_def ws_send_def echo_def split: option.splits)

lemma echo_stamp_fields:
  "get_field (echo (stamp parsed0 d) now) ''timestamp'' = Some (JString now)"
  "get_field (echo (stamp parsed0 d) now) ''deviceId'' = Some (JString d)"
  "k \<noteq> ''timestamp'' \<Longrightarrow> k \<noteq> ''deviceId'' \<Longrightarrow>
     get_field (echo (stamp parsed0 d) now) k = map_of (spread parsed0) k"
  by (simp_all add: echo_def stamp_def AList.update_conv')

text \<open>
  C1. For an inbound event whose \<^verbatim>\<open>type\<close> is \<^verbatim>\<open>"chat"\<close>: the handler first stamps the
  event, overwriting any \<^verbatim>\<open>deviceId\<close> the client supplied with the connection's own;
  it then calls the history store's append with that identity and the event's content and
  is suspended on it. When the append has completed, in the state the relay has by then,
  it looks the identity up in the registry; if a session is there it sends that session's
  socket the stamped event with a \<^verbatim>\<open>timestamp\<close> field holding the clock's
  \<^verbatim>\<open>toISOString()\<close> text (all other fields as stamped), and if none is there it sends
  nothing.
\<close>

theorem chat_saved_then_echoed:
  assumes "JSON_parse L message = Inr parsed0"
    and "get_field parsed0 ''type'' = Some (JString ''chat'')"
    and "closures s w = Some d"
    and "readyState s w \<noteq> CLOSED"
  shows "step L (Message w message) s =
      (s\<lparr>pending := pending s @ [ChatSave w d (stamp parsed0 d)]\<rparr>,
       [ConsoleLog (Received (stamp parsed0 d)),
        SaveChatMessage d (get_field parsed0 ''content'')], None) \<and>
    get_field (stamp parsed0 d) ''deviceId'' = Some (JString d) \<and>
    (\<forall>k. k \<noteq> ''deviceId'' \<longrightarrow> get_field (stamp parsed0 d) k = get_field parsed0 k) \<and>
    (\<forall>s' i v now. i < length (pending s') \<and> pending s' ! i = ChatSave w d (stamp parsed0 d) \<longrightarrow>
       actions (step L (Settle i (Resolved v) now) s') =
         SessionsGet d #
         (case map_of (activeSessions s') d of
            None \<Rightarrow> []
          | Some targetSession \<Rightarrow>
              Send (ws targetSession) (echo (stamp parsed0 d) now) #
              (if readyState s' (ws targetSession) \<noteq> OPEN \<and>
                  send_throws L (readyState s' (ws targetSession))
               then [ConsoleError (NotOpened (readyState s' (ws targetSession)))] else [])) \<and>
       escaped (step L (Settle i (Resolved v) now) s') = None) \<and>
    (\<forall>now. get_field (echo (stamp parsed0 d) now) ''timestamp'' = Some (JString now) \<and>
       get_field (echo (stamp parsed0 d) now) ''deviceId'' = Some (JString d) \<and>
       (\<forall>k. k \<noteq> ''timestamp'' \<and> k \<noteq> ''deviceId'' \<longrightarrow>
          get_field (echo (stamp parsed0 d) now) k = get_field parsed0 k))"
proof -
  from assms(2) have obj: "parsed0 = JObject (spread parsed0)"
    by (rule chat_is_object)
  have f: "\<And>k. get_field parsed0 k = map_of (spread parsed0) k"
    using obj by (metis get_field.simps(1))
  have a: "step L (Message w message) s =
      (s\<lparr>pending := pending s @ [ChatSave w d (stamp parsed0 d)]\<rparr>,
       [ConsoleLog (Received (stamp parsed0 d)),
        SaveChatMessage d (get_field parsed0 ''content'')], None)"
    using assms by (rule step_chat_begin)
  have b: "get_field (stamp parsed0 d) ''deviceId'' = Some (JString d)"
    by (simp add: stamp_def AList.update_conv')
  have c: "\<forall>k. k \<noteq> ''deviceId'' \<longrightarrow> get_field (stamp parsed0 d) k = get_field parsed0 k"
    by (simp add: f) (simp add: stamp_def AList.update_conv')
  have d: "\<forall>s' i v now. i < length (pending s') \<and> pending s' ! i = ChatSave w d (stamp parsed0 d) \<longrightarrow>
       actions (step L (Settle i (Resolved v) now) s') =
         SessionsGet d #
         (case map_of (activeSessions s') d of
            None \<Rightarrow> []
          | Some targetSession \<Rightarrow>
              Send (ws targetSession) (echo (stamp parsed0 d) now) #
              (if readyState s' (ws targetSession) \<noteq> OPEN \<and>
                  send_throws L (readyState s' (ws targetSession))
               then [ConsoleError (NotOpened (readyState s' (ws targetSession)))] else [])) \<and>
       escaped (step L (Settle i (Resolved v) now) s') = None"
    by (simp add: step_chat_resume resume_resolved actions_def escaped_def)
  have e: "\<forall>now. get_field (echo (stamp parsed0 d) now) ''timestamp'' = Some (JString now) \<and>
       get_field (echo (stamp parsed0 d) now) ''deviceId'' = Some (JString d) \<and>
       (\<forall>k. k \<noteq> ''timestamp'' \<and> k \<noteq> ''deviceId'' \<longrightarrow>
          get_field (echo (stamp parsed0 d) now) k = get_field parsed0 k)"
    by (simp add: echo_stamp_fields f)
  from a b c d e show ?thesis by blast
qed

theorem chat_saved_then_echoed_witness:
  "JSON_parse demo_lib chat_frame =
     Inr (JObject [(''type'', JString ''chat''), (''deviceId'', JString ''spoof''),
                   (''content'', JString ''hi'')]) \<and>
   closures (exec demo_lib createWebSocketServer [Connection (Some ''k'') ''u1'']) 0 = Some ''k'' \<and>
   actions (step demo_lib (Message 0 chat_frame)
      (exec demo_lib createWebSocketServer [Connection (Some ''k'') ''u1''])) =
     [ConsoleLog (Received (JObject [(''type'', JString ''chat''), (''deviceId'', JString ''k''),
                                    (''content'', JString ''hi'')])),
      SaveChatMessage ''k'' (Some (JString ''hi''))] \<and>
   actions (step demo_lib (Settle 1 (Resolved JNull) ''2026-11-02T09:00:00.000Z'')
      (exec demo_lib createWebSocketServer
         [Connection (Some ''k'') ''u1'', Message 0 chat_frame])) =
     [SessionsGet ''k'',
      Send 0 (JObject [(''type'', JString ''chat''), (''deviceId'', JString ''k''),
                       (''content'', JString ''hi''),
                       (''timestamp'', JString ''2026-11-02T09:00:00.000Z'')])] \<and>
   actions (step demo_lib (Settle 1 (Resolved JNull) ''2026-11-02T09:00:00.000Z'')
      (exec demo_lib createWebSocketServer
         [Connection (Some ''k'') ''u1'', Message 0 chat_frame, Close 0])) =
     [SessionsGet ''k'']"
  using chat_saved_then_echoed
      [of demo_lib chat_frame
        "JObject [(''type'', JString ''chat''), (''deviceId'', JString ''spoof''),
                  (''content'', JString ''hi'')]"
        "exec demo_lib createWebSocketServer [Connection (Some ''k'') ''u1'']" 0 "''k''"]
  by (simp add: relay_defs demo_defs stamp_def echo_def)

text \<open>
  C10. A well-formed \<^verbatim>\<open>chat\<close> event with no \<^verbatim>\<open>content\<close> field is not rejected: the
  handler calls the history store's append with an absent content, and when the append
  has completed and the identity's session is in the registry, the echo is sent to that
  session's socket, as for any other chat event; the echo has no \<^verbatim>\<open>content\<close> field
  either.
\<close>

theorem chat_without_content:
  assumes "JSON_parse L message = Inr parsed0"
    and "get_field parsed0 ''type'' = Some (JString ''chat'')"
    and "get_field parsed0 ''content'' = None"
    and "closures s w = Some d"
    and "readyState s w \<noteq> CLOSED"
  shows "actions (step L (Message w message) s) =
      [ConsoleLog (Received (stamp parsed0 d)), SaveChatMessage d None] \<and>
    pending (fst (step L (Message w message) s)) =
      pending s @ [ChatSave w d (stamp parsed0 d)] \<and>
    (\<forall>s' i v now t.
       i < length (pending s') \<and> pending s' ! i = ChatSave w d (stamp parsed0 d) \<and>
       map_of (activeSessions s') d = Some t \<longrightarrow>
       recipients (actions (step L (Settle i (Resolved v) now) s')) = [ws t] \<and>
       Send (ws t) (echo (stamp parsed0 d) now)
         \<in> set (actions (step L (Settle i (Resolved v) now) s')) \<and>
       get_field (echo (stamp parsed0 d) now) ''content'' = None)"
proof -
  from assms(2) have obj: "parsed0 = JObject (spread parsed0)"
    by (rule chat_is_object)
  have none: "map_of (spread parsed0) ''content'' = None"
    using obj assms(3) by (metis get_field.simps(1))
  have a: "step L (Message w message) s =
      (s\<lparr>pending := pending s @ [ChatSave w d (stamp parsed0 d)]\<rparr>,
       [ConsoleLog (Received (stamp parsed0 d)),
        SaveChatMessage d (get_field parsed0 ''content'')], None)"
    using assms(1,2,4,5) by (rule step_chat_begin)
  have b: "\<forall>s' i v now t.
       i < length (pending s') \<and> pending s' ! i = ChatSave w d (stamp parsed0 d) \<and>
       map_of (activeSessions s') d = Some t \<longrightarrow>
       recipients (actions (step L (Settle i (Resolved v) now) s')) = [ws t] \<and>
       Send (ws t) (echo (stamp parsed0 d) now)
         \<in> set (actions (step L (Settle i (Resolved v) now) s')) \<and>
       get_field (echo (stamp parsed0 d) now) ''content'' = None"
    by (simp add: step_chat_resume resume_resolved actions_def echo_stamp_fields none)
  have a1: "actions (step L (Message w message) s) =
      [ConsoleLog (Received (stamp parsed0 d)), SaveChatMessage d None]"
    unfolding a using assms(3) by (simp add: actions_def)
  have a2: "pending (fst (step L (Message w message) s)) =
      pending s @ [ChatSave w d (stamp parsed0 d)]"
    unfolding a by simp
  from a1 a2 b show ?thesis by blast
qed

theorem chat_without_content_witness:
  "JSON_parse demo_lib bare_chat_frame = Inr (JObject [(''type'', JString ''chat'')]) \<and>
   actions (step demo_lib (Message 0 bare_chat_frame)
      (exec demo_lib createWebSocketServer [Connection None ''u1''])) =
     [ConsoleLog (Received (JObject [(''type'', JString ''chat''), (''deviceId'', JString ''u1'')])),
      SaveChatMessage ''u1'' None] \<and>
   actions (step demo_lib (Settle 1 (Resolved JNull) ''2026-11-02T09:00:00.000Z'')
      (exec demo_lib createWebSocketServer [Connection None ''u1'', Message 0 bare_chat_frame])) =
     [SessionsGet ''u1'',
      Send 0 (JObject [(''type'', JString ''chat''), (''deviceId'', JString ''u1''),
                       (''timestamp'', JString ''2026-11-02T09:00:00.000Z'')])]"
  using chat_without_content
      [of demo_lib bare_chat_frame "JObject [(''type'', JString ''chat'')]"
        "exec demo_lib createWebSocketServer [Connection None ''u1'']" 0 "''u1''"]
  by (simp add: relay_defs demo_defs stamp_def echo_def)

subsection \<open>Identity assignment\<close>

text \<open>
  C9. An empty \<^verbatim>\<open>sec-websocket-key\<close> is treated as an absent one: the connection handler
  does exactly what it does without the header, and the identity it registers, announces
  and captures is the identifier \<^verbatim>\<open>uuidv4()\<close> returned, not the empty string.
\<close>

theorem empty_key_is_absent_key:
  "step L (Connection (Some []) uuid) s = step L (Connection None uuid) s \<and>
   assign_deviceId (Some []) uuid = uuid \<and>
   closures (fst (step L (Connection (Some []) uuid) s)) (opened s) = Some uuid \<and>
   map_of (activeSessions (fst (step L (Connection (Some []) uuid) s))) uuid =
     Some \<lparr>ws = opened s, deviceId = uuid, userId = None\<rparr> \<and>
   actions (step L (Connection (Some []) uuid) s) =
     [SessionsSet uuid (opened s), ConsoleLog Connected,
      Send (opened s) (welcome_event uuid), GetChatHistory uuid]"
  by (simp add: on_connection_def assign_deviceId_def Let_def actions_def AList.update_conv')

theorem empty_key_is_absent_key_witness:
  "closures (fst (step demo_lib (Connection (Some []) ''u1'') createWebSocketServer)) 0 =
     Some ''u1'' \<and>
   actions (step demo_lib (Connection (Some []) ''u1'') createWebSocketServer) =
     [SessionsSet ''u1'' 0, ConsoleLog Connected,
      Send 0 (JObject [(''type'', JString ''connection''), (''deviceId'', JString ''u1''),
                       (''message'', JString ''Connected to Ecosense WebSocket Server'')]),
      GetChatHistory ''u1'']"
  using empty_key_is_absent_key [of demo_lib "''u1''" createWebSocketServer]
  by (simp add: relay_defs)

subsection \<open>Echo isolation\<close>

lemma wf_reachable: "wf_relay (exec L createWebSocketServer es)"
  by (simp add: wf_exec wf_init)

lemma wf_pending_identity:
  assumes "wf_relay s" and "i < length (pending s)"
  shows "closures s (task_socket (pending s ! i)) = Some (task_deviceId (pending s ! i))"
proof -
  have "pending s ! i \<in> set (pending s)"
    using assms(2) by (rule nth_mem)
  with assms(1) show ?thesis
    unfolding wf_relay_def by blast
qed

lemma wf_session_identity:
  assumes "wf_relay s" and "map_of (activeSessions s) d = Some t"
  shows "closures s (ws t) = Some d"
proof -
  have "(d, t) \<in> set (activeSessions s)"
    using assms(2) by (rule map_of_SomeD)
  with assms(1) show ?thesis
    unfolding wf_relay_def by blast
qed

lemma recipients_try_send:
  "recipients (try_catch (ws_send L rs w v)) = [w]"
  by (simp add: ws_send_def)

lemma recipients_resume:
  "recipients (on_message_resume L s d parsed outcome now) =
     (case outcome of
        Rejected e \<Rightarrow> []
      | Resolved v \<Rightarrow> (case map_of (activeSessions s) d of None \<Rightarrow> [] | Some t \<Rightarrow> [ws t]))"
  by (cases outcome; cases "map_of (activeSessions s) d")
    (simp_all add: on_message_resume_def recipients_try_send)

text \<open>
  C2, as amended. In every state the relay reaches, the echo of a chat event received on
  connection A goes to no connection whose identity differs from A's. When the append has
  completed, the echo is sent to exactly one socket, that of the session then registered
  under A's identity, and to none when no session is registered under it or the append
  failed; the socket that receives it captured that same identity (it need not be A when
  two connections share a handshake key).
\<close>

theorem echo_stays_within_identity:
  assumes "s = exec L createWebSocketServer es"
    and "i < length (pending s)"
    and "pending s ! i = ChatSave a d parsed"
  shows "closures s a = Some d \<and>
    recipients (actions (step L (Settle i outcome now) s)) =
      (case outcome of
         Rejected e \<Rightarrow> []
       | Resolved v \<Rightarrow> (case map_of (activeSessions s) d of None \<Rightarrow> [] | Some t \<Rightarrow> [ws t])) \<and>
    (\<forall>b \<in> set (recipients (actions (step L (Settle i outcome now) s))).
       closures s b = Some d \<and> (\<exists>t. map_of (activeSessions s) d = Some t \<and> ws t = b)) \<and>
    (\<forall>b. closures s b \<noteq> Some d \<longrightarrow>
       b \<notin> set (recipients (actions (step L (Settle i outcome now) s))))"
proof -
  have wf: "wf_relay s"
    using assms(1) by (simp add: wf_reachable)
  have origin: "closures s a = Some d"
    using wf_pending_identity[OF wf assms(2)] assms(3) by simp
  have acts: "actions (step L (Settle i outcome now) s) = on_message_resume L s d parsed outcome now"
    using assms(2,3) by (simp add: step_chat_resume actions_def)
  have exact: "recipients (actions (step L (Settle i outcome now) s)) =
      (case outcome of
         Rejected e \<Rightarrow> []
       | Resolved v \<Rightarrow> (case map_of (activeSessions s) d of None \<Rightarrow> [] | Some t \<Rightarrow> [ws t]))"
    by (simp only: acts recipients_resume)
  have rec: "\<forall>b \<in> set (recipients (actions (step L (Settle i outcome now) s))).
       closures s b = Some d \<and> (\<exists>t. map_of (activeSessions s) d = Some t \<and> ws t = b)"
  proof
    fix b
    assume "b \<in> set (recipients (actions (step L (Settle i outcome now) s)))"
    then have b: "b \<in> set (recipients (on_message_resume L s d parsed outcome now))"
      by (simp only: acts)
    then obtain v where res: "outcome = Resolved v"
      by (cases outcome) (simp_all add: recipients_resume)
    from b res obtain t where t: "map_of (activeSessions s) d = Some t" and bt: "b = ws t"
      by (cases "map_of (activeSessions s) d") (simp_all add: recipients_resume)
    from wf_session_identity[OF wf t] t bt
    show "closures s b = Some d \<and> (\<exists>t. map_of (activeSessions s) d = Some t \<and> ws t = b)"
      by simp
  qed
  from origin exact rec show ?thesis by blast
qed

theorem echo_stays_within_identity_witness:
  "pending (exec demo_lib createWebSocketServer
      [Connection (Some ''a'') ''u1'', Connection (Some ''b'') ''u2'', Message 0 chat_frame]) ! 2 =
     ChatSave 0 ''a'' (JObject [(''type'', JString ''chat''), (''deviceId'', JString ''a''),
                               (''content'', JString ''hi'')]) \<and>
   closures (exec demo_lib createWebSocketServer
      [Connection (Some ''a'') ''u1'', Connection (Some ''b'') ''u2'', Message 0 chat_frame]) 1 =
     Some ''b'' \<and>
   recipients (actions (step demo_lib (Settle 2 (Resolved JNull) ''2026-11-02T09:00:00.000Z'')
      (exec demo_lib createWebSocketServer
        [Connection (Some ''a'') ''u1'', Connection (Some ''b'') ''u2'', Message 0 chat_frame]))) =
     [0] \<and>
   pending (exec demo_lib createWebSocketServer
      [Connection (Some ''k'') ''u1'', Connection (Some ''k'') ''u2'', Close 0,
       Message 1 chat_frame]) ! 2 =
     ChatSave 1 ''k'' (JObject [(''type'', JString ''chat''), (''deviceId'', JString ''k''),
                               (''content'', JString ''hi'')]) \<and>
   recipients (actions (step demo_lib (Settle 2 (Resolved JNull) ''2026-11-02T09:00:00.000Z'')
      (exec demo_lib createWebSocketServer
        [Connection (Some ''k'') ''u1'', Connection (Some ''k'') ''u2'', Close 0,
         Message 1 chat_frame]))) = []"
  using echo_stays_within_identity
      [of "exec demo_lib createWebSocketServer
        [Connection (Some ''a'') ''u1'', Connection (Some ''b'') ''u2'', Message 0 chat_frame]"
        demo_lib
        "[Connection (Some ''a'') ''u1'', Connection (Some ''b'') ''u2'', Message 0 chat_frame]"
        2 0 "''a''"
        "JObject [(''type'', JString ''chat''), (''deviceId'', JString ''a''),
                  (''content'', JString ''hi'')]"
        "Resolved JNull" "''2026-11-02T09:00:00.000Z''"]
    echo_stays_within_identity
      [of "exec demo_lib createWebSocketServer
        [Connection (Some ''k'') ''u1'', Connection (Some ''k'') ''u2'', Close 0,
         Message 1 chat_frame]"
        demo_lib
        "[Connection (Some ''k'') ''u1'', Connection (Some ''k'') ''u2'', Close 0,
          Message 1 chat_frame]"
        2 1 "''k''"
        "JObject [(''type'', JString ''chat''), (''deviceId'', JString ''k''),
                  (''content'', JString ''hi'')]"
        "Resolved JNull" "''2026-11-02T09:00:00.000Z''"]
  by (simp add: relay_defs demo_defs echo_def)

text \<open>
  The claim as stated fails: two connections open at once under one handshake key, a chat
  event arrives on the first, and its echo is sent to the second.
\<close>

theorem echo_crosses_connections_counterexample:
  "readyState (exec demo_lib createWebSocketServer
      [Connection (Some ''k'') ''u1'', Connection (Some ''k'') ''u2'', Message 0 chat_frame]) 0 = OPEN \<and>
   readyState (exec demo_lib createWebSocketServer
      [Connection (Some ''k'') ''u1'', Connection (Some ''k'') ''u2'', Message 0 chat_frame]) 1 = OPEN \<and>
   pending (exec demo_lib createWebSocketServer
      [Connection (Some ''k'') ''u1'', Connection (Some ''k'') ''u2'', Message 0 chat_frame]) ! 2 =
     ChatSave 0 ''k'' (JObject [(''type'', JString ''chat''), (''deviceId'', JString ''k''),
                               (''content'', JString ''hi'')]) \<and>
   actions (step demo_lib (Settle 2 (Resolved JNull) ''2026-11-02T09:00:00.000Z'')
      (exec demo_lib createWebSocketServer
        [Connection (Some ''k'') ''u1'', Connection (Some ''k'') ''u2'', Message 0 chat_frame])) =
     [SessionsGet ''k'',
      Send 1 (JObject [(''type'', JString ''chat''), (''deviceId'', JString ''k''),
                       (''content'', JString ''hi''),
                       (''timestamp'', JString ''2026-11-02T09:00:00.000Z'')])]"
  by (simp add: relay_defs demo_defs echo_def)

subsection \<open>Broadcast\<close>

lemma broadcast_open_clients:
  "broadcastMessage L cs message =
     (map (\<lambda>c. Send c message) (map fst (filter (\<lambda>(c, rs). rs = OPEN) cs)), None)"
  by (induction cs) auto

text \<open>
  C5, as amended. \<^verbatim>\<open>broadcastMessage\<close> sends the message to exactly the members of the
  server's client set \<^verbatim>\<open>wss.clients\<close> that are open, in the set's order and each with the
  same payload; a client that is not open is skipped without error, and nothing else is
  done: the registry is not consulted and the relay's state is unchanged.
\<close>

theorem broadcast_reaches_open_clients:
  "broadcastMessage L cs message =
     (map (\<lambda>c. Send c message) (map fst (filter (\<lambda>(c, rs). rs = OPEN) cs)), None) \<and>
   step L (Broadcast message) s =
     (s, map (\<lambda>c. Send c message) (filter (\<lambda>c. readyState s c = OPEN) (clients s)), None)"
proof -
  have "map fst (filter (\<lambda>(c, rs). rs = OPEN) (map (\<lambda>w. (w, readyState s w)) (clients s))) =
      filter (\<lambda>c. readyState s c = OPEN) (clients s)"
    by (induction "clients s" arbitrary: s) (simp_all add: filter_map comp_def)
  then show ?thesis
    by (simp add: broadcast_open_clients)
qed

theorem broadcast_reaches_open_clients_witness:
  "broadcastMessage demo_lib [(0, OPEN), (1, CLOSED), (2, OPEN), (3, OPEN)] (JString ''tick'') =
     ([Send 0 (JString ''tick''), Send 2 (JString ''tick''), Send 3 (JString ''tick'')], None) \<and>
   actions (step demo_lib (Broadcast (JString ''tick''))
      (exec demo_lib createWebSocketServer
        [Connection None ''u1'', Connection None ''u2'', Connection None ''u3'',
         Connection None ''u4'', Closing 1])) =
     [Send 0 (JString ''tick''), Send 2 (JString ''tick''), Send 3 (JString ''tick'')]"
  using broadcast_reaches_open_clients
      [of demo_lib "[(0, OPEN), (1, CLOSED), (2, OPEN), (3, OPEN)]" "JString ''tick''"
        "exec demo_lib createWebSocketServer
          [Connection None ''u1'', Connection None ''u2'', Connection None ''u3'',
           Connection None ''u4'', Closing 1]"]
  by (simp add: relay_defs)

text \<open>
  The claim as stated fails: after two connections under one handshake key the registry
  holds the second socket only, and a broadcast reaches both sockets.
\<close>

theorem broadcast_ignores_registry_counterexample:
  "map (\<lambda>p. ws (snd p)) (activeSessions (exec demo_lib createWebSocketServer
      [Connection (Some ''k'') ''u1'', Connection (Some ''k'') ''u2''])) = [1] \<and>
   readyState (exec demo_lib createWebSocketServer
      [Connection (Some ''k'') ''u1'', Connection (Some ''k'') ''u2'']) 0 = OPEN \<and>
   recipients (actions (step demo_lib (Broadcast (JString ''tick''))
      (exec demo_lib createWebSocketServer
        [Connection (Some ''k'') ''u1'', Connection (Some ''k'') ''u2'']))) = [0, 1]"
  by (simp add: relay_defs)

subsection \<open>Errors of the history store\<close>

text \<open>
  C3. Where the code departs from the claim: a rejection of the history read started at
  connect has no handler. The continuation performs no action, not even a log line, and
  the error leaves the callback uncaught, whereas a rejection of the append of a chat
  event is caught and logged inside the message handler.
\<close>

theorem history_read_failure_escapes:
  "actions (step demo_lib (Settle 0 (Rejected (StoreFailure ''read'')) [])
      (exec demo_lib createWebSocketServer [Connection None ''u1''])) = [] \<and>
   escaped (step demo_lib (Settle 0 (Rejected (StoreFailure ''read'')) [])
      (exec demo_lib createWebSocketServer [Connection None ''u1''])) =
     Some (StoreFailure ''read'') \<and>
   actions (step demo_lib (Settle 1 (Rejected (StoreFailure ''append'')) [])
      (exec demo_lib createWebSocketServer [Connection None ''u1'', Message 0 chat_frame])) =
     [ConsoleError (StoreFailure ''append'')] \<and>
   escaped (step demo_lib (Settle 1 (Rejected (StoreFailure ''append'')) [])
      (exec demo_lib createWebSocketServer [Connection None ''u1'', Message 0 chat_frame])) =
     None"
  by (simp add: relay_defs demo_defs)

subsection \<open>The identity of a connection\<close>

lemma wf_socket_known:
  assumes "wf_relay s" and "closures s w = Some d"
  shows "w < opened s"
  using assms unfolding wf_relay_def by blast

lemma closures_on_connection:
  "closures (fst (on_connection L key uuid s)) =
     (closures s)(opened s := Some (assign_deviceId key uuid))"
  by (simp add: on_connection_def Let_def)

lemma closures_step:
  assumes "wf_relay s" and "closures s w = Some d"
  shows "closures (fst (step L e s)) w = Some d"
proof (cases e)
  case (Connection key uuid)
  have "w \<noteq> opened s"
    using wf_socket_known[OF assms] by simp
  with assms(2) Connection show ?thesis
    by (simp add: closures_on_connection)
next
  case (Message w' message)
  from step_Message_state[of L w' message s] assms(2) Message show ?thesis
    by auto
next
  case (Settle i outcome now)
  from step_Settle_state[of L i outcome now s] assms(2) Settle show ?thesis
    by auto
next
  case (Closing w')
  with assms(2) show ?thesis by simp
next
  case (Close w')
  from step_Close_state[of L w' s] assms(2) Close show ?thesis
    by auto
next
  case (Broadcast message)
  with assms(2) show ?thesis by (simp split: prod.splits)
qed

lemma subscription_keys:
  "a \<in> set (try_catch (handleSubscription L rs w parsed)) \<Longrightarrow> action_key a = None"
  by (auto simp: handleSubscription_def ws_send_def Let_def split: if_splits option.splits)

lemma on_message_keys:
  assumes "a \<in> set (fst (on_message L rs w d message))"
  shows "action_key a = None \<or> action_key a = Some d"
proof (cases "JSON_parse L message")
  case (Inl e)
  with assms show ?thesis by (simp add: on_message_def)
next
  case (Inr parsed0)
  show ?thesis
  proof (cases "set_deviceId parsed0 d")
    case (Inl e)
    with assms Inr show ?thesis by (simp add: on_message_def)
  next
    case st: (Inr parsed)
    with assms Inr show ?thesis
      by (auto simp: on_message_def dest: subscription_keys split: if_splits)
  qed
qed

lemma resume_keys:
  assumes "a \<in> set (on_message_resume L s d parsed outcome now)"
  shows "action_key a = None \<or> action_key a = Some d"
  using assms
  by (cases outcome; cases "map_of (activeSessions s) d")
    (auto simp: on_message_resume_def ws_send_def split: if_splits)

lemma history_then_keys:
  assumes "a \<in> set (fst (history_then L s w outcome))"
  shows "action_key a = None"
  using assms by (cases outcome) (auto simp: history_then_def ws_send_def)

lemma broadcast_keys:
  assumes "a \<in> set (fst (broadcastMessage L cs message))"
  shows "action_key a = None"
  using assms by (auto simp: broadcast_open_clients)

lemma step_keys:
  assumes "wf_relay s" and "closures s w = Some d" and "event_socket s e = Some w"
    and "a \<in> set (actions (step L e s))"
  shows "action_key a = None \<or> action_key a = Some d"
proof (cases e)
  case (Connection key uuid)
  with assms(3) have "w = opened s" by simp
  with wf_socket_known[OF assms(1,2)] show ?thesis by simp
next
  case (Message w' message)
  with assms(3) have w: "w' = w" by simp
  show ?thesis
  proof (cases "readyState s w = CLOSED")
    case True
    with assms(2,4) Message w show ?thesis by (simp add: actions_def)
  next
    case False
    with assms(2,4) Message w have "a \<in> set (fst (on_message L (readyState s w) w d message))"
      by (auto simp: actions_def split: prod.splits option.splits)
    then show ?thesis by (rule on_message_keys)
  qed
next
  case (Settle i outcome now)
  with assms(3) have i: "i < length (pending s)" and t: "task_socket (pending s ! i) = w"
    by (simp_all split: if_splits)
  from wf_pending_identity[OF assms(1) i] t assms(2)
  have d: "task_deviceId (pending s ! i) = d" by simp
  show ?thesis
  proof (cases "pending s ! i")
    case (HistoryRead w' d')
    with assms(4) Settle i have "a \<in> set (fst (history_then L s w' outcome))"
      by (auto simp: actions_def Let_def split: prod.splits)
    then show ?thesis by (simp add: history_then_keys)
  next
    case (ChatSave w' d' parsed)
    with d have "d' = d" by simp
    with assms(4) Settle i ChatSave
    have "a \<in> set (on_message_resume L s d parsed outcome now)"
      by (simp add: actions_def Let_def)
    then show ?thesis by (rule resume_keys)
  qed
next
  case (Closing w')
  with assms(4) show ?thesis by (simp add: actions_def split: if_splits)
next
  case (Close w')
  with assms(3) have w: "w' = w" by simp
  with assms(2,4) Close show ?thesis
    by (auto simp: actions_def on_close_def split: if_splits)
next
  case (Broadcast message)
  with assms(3) show ?thesis by simp
qed

text \<open>
  C7. The connection callback sees no handshake key or a non-empty one: the transport
  refuses a handshake whose key is empty before the callback runs. The identity of the
  new connection is then the key when one is supplied and the identifier \<^verbatim>\<open>uuidv4()\<close>
  returns otherwise. The \<^verbatim>\<open>deviceId\<close> of the welcome event is that identity, it is the
  identity the connection's handlers capture, and in every state the relay reaches it
  stays the connection's identity after every event, and every history read, history
  append and registry operation done by that connection's handlers and continuations
  names it.
\<close>

theorem identity_fixed_for_lifetime:
  assumes "s = exec L createWebSocketServer es"
    and "key \<noteq> Some []"
  shows "(let r = step L (Connection key uuid) s; d = assign_deviceId key uuid
     in (\<forall>k. key = Some k \<longrightarrow> d = k) \<and>
        (key = None \<longrightarrow> d = uuid) \<and>
        closures (fst r) (opened s) = Some d \<and>
        actions r =
          [SessionsSet d (opened s), ConsoleLog Connected,
           Send (opened s) (welcome_event d), GetChatHistory d] \<and>
        get_field (welcome_event d) ''deviceId'' = Some (JString d)) \<and>
    (\<forall>w d e. closures s w = Some d \<longrightarrow>
       closures (fst (step L e s)) w = Some d \<and>
       (event_socket s e = Some w \<longrightarrow>
          (\<forall>a \<in> set (actions (step L e s)). action_key a = None \<or> action_key a = Some d)))"
proof -
  have wf: "wf_relay s"
    using assms(1) by (simp add: wf_reachable)
  have conn: "let r = step L (Connection key uuid) s; d = assign_deviceId key uuid
     in (\<forall>k. key = Some k \<longrightarrow> d = k) \<and>
        (key = None \<longrightarrow> d = uuid) \<and>
        closures (fst r) (opened s) = Some d \<and>
        actions r =
          [SessionsSet d (opened s), ConsoleLog Connected,
           Send (opened s) (welcome_event d), GetChatHistory d] \<and>
        get_field (welcome_event d) ''deviceId'' = Some (JString d)"
    using assms(2)
    by (auto simp: Let_def on_connection_def assign_deviceId_def actions_def welcome_event_def)
  have life: "\<forall>w d e. closures s w = Some d \<longrightarrow>
       closures (fst (step L e s)) w = Some d \<and>
       (event_socket s e = Some w \<longrightarrow>
          (\<forall>a \<in> set (actions (step L e s)). action_key a = None \<or> action_key a = Some d))"
    using closures_step[OF wf] step_keys[OF wf] by blast
  from conn life show ?thesis by blast
qed

theorem identity_fixed_for_lifetime_witness:
  "closures (exec demo_lib createWebSocketServer [Connection (Some ''k'') ''u1'']) 0 = Some ''k'' \<and>
   actions (step demo_lib (Connection (Some ''k2'') ''u2'')
      (exec demo_lib createWebSocketServer [Connection (Some ''k'') ''u1''])) =
     [SessionsSet ''k2'' 1, ConsoleLog Connected,
      Send 1 (JObject [(''type'', JString ''connection''), (''deviceId'', JString ''k2''),
                       (''message'', JString ''Connected to Ecosense WebSocket Server'')]),
      GetChatHistory ''k2''] \<and>
   actions (step demo_lib (Connection None ''u2'')
      (exec demo_lib createWebSocketServer [Connection (Some ''k'') ''u1''])) =
     [SessionsSet ''u2'' 1, ConsoleLog Connected,
      Send 1 (JObject [(''type'', JString ''connection''), (''deviceId'', JString ''u2''),
                       (''message'', JString ''Connected to Ecosense WebSocket Server'')]),
      GetChatHistory ''u2''] \<and>
   closures (fst (step demo_lib (Message 0 chat_frame)
      (exec demo_lib createWebSocketServer [Connection (Some ''k'') ''u1'']))) 0 = Some ''k'' \<and>
   event_socket (exec demo_lib createWebSocketServer [Connection (Some ''k'') ''u1''])
      (Message 0 chat_frame) = Some 0 \<and>
   map action_key (actions (step demo_lib (Message 0 chat_frame)
      (exec demo_lib createWebSocketServer [Connection (Some ''k'') ''u1'']))) =
     [None, Some ''k'']"
  using identity_fixed_for_lifetime
      [of "exec demo_lib createWebSocketServer [Connection (Some ''k'') ''u1'']" demo_lib
        "[Connection (Some ''k'') ''u1'']" "Some ''k2''" "''u2''"]
    identity_fixed_for_lifetime
      [of "exec demo_lib createWebSocketServer [Connection (Some ''k'') ''u1'']" demo_lib
        "[Connection (Some ''k'') ''u1'']" None "''u2''"]
  by (simp add: relay_defs demo_defs)

end
